theory Spec2Isabelle
  imports Main "HOL-Library.Word"
begin

unbundle bit_operations_syntax

section \<open>Data model of \<open>server/util.go\<close>\<close>

text \<open>
  A Go byte slice is either \<open>nil\<close> or a (possibly empty) sequence of bytes; the source
  tests \<open>value == nil\<close>, so the two are kept apart: \<open>None\<close> is the nil slice.
\<close>

type_synonym byte = "8 word"
type_synonym bytes = "byte list option"
type_synonym uint64 = "64 word"

definition len :: "bytes \<Rightarrow> nat" where
  "len b = (case b of None \<Rightarrow> 0 | Some xs \<Rightarrow> length xs)"

definition elems :: "bytes \<Rightarrow> byte list" where
  "elems b = (case b of None \<Rightarrow> [] | Some xs \<Rightarrow> xs)"

text \<open>The fields of \<open>mvccpb.KeyValue\<close> and \<open>clientv3.GetResponse\<close> that the source reads.\<close>

record KeyValue =
  Key :: bytes
  Value :: bytes

record GetResponse =
  Kvs :: "KeyValue list"

record TxnResponse =
  Succeeded :: bool

record StatusResponse =
  Version :: string

text \<open>
  Errors. \<open>External\<close> stands for an error value handed back by a library outside the
  repository (etcd client, net, protobuf, the message codec). The other constructors are
  the \<open>errors.Errorf\<close> calls of the source, with the formatted arguments kept as data.
  \<open>Traced e\<close> is \<open>errors.Trace(e)\<close> for a non-nil \<open>e\<close>: a new error that records the
  call site and keeps \<open>e\<close> underneath.
\<close>

datatype error =
    External string
  | InvalidGetValueResp "KeyValue list"
  | InvalidData nat
  | ConnectFailed string
  | IdMismatch uint64 uint64
  | Traced error

text \<open>\<open>errors.Trace\<close>: nil stays nil.\<close>

definition Trace :: "error option \<Rightarrow> error option" where
  "Trace err = (case err of None \<Rightarrow> None | Some e \<Rightarrow> Some (Traced e))"

text \<open>\<open>errors.Cause\<close>: the error underneath every trace annotation.\<close>

fun Cause :: "error \<Rightarrow> error" where
  "Cause (Traced e) = Cause e"
| "Cause e = e"


section \<open>Time, contexts, log sink and metrics\<close>

text \<open>A \<open>time.Duration\<close> is a number of nanoseconds.\<close>

type_synonym duration = int

definition Millisecond :: duration where "Millisecond = 1000000"
definition Second :: duration where "Second = 1000000000"

definition requestTimeout :: duration where "requestTimeout = 10 * Second"
definition slowRequestTime :: duration where "slowRequestTime = 1 * Second"

text \<open>
  The levels of the process's own logger (\<open>ngaut/log\<close>) and what is handed to it. The
  three slow-operation warnings keep their \<open>Warnf\<close> arguments as data.
\<close>

datatype sink_level = LOG_FATAL | LOG_ERROR | LOG_WARNING | LOG_INFO | LOG_DEBUG

datatype log_msg =
    Text string
  | KvGetSlow string "error + GetResponse" duration
  | TxnSlow "error + TxnResponse" duration
  | StatusSlow string "error + StatusResponse" duration

datatype probe_event = StatusQuery string | Sleep duration

text \<open>
  The effects of the process that the functions below have: calls to the log sink in
  order, process exit, the two metric vectors \<open>txnCounter\<close> and \<open>txnDuration\<close> (one
  counter and one list of observations per label), the contexts created by
  \<open>context.WithTimeout\<close> and the ones whose cancel function has run, the number of status
  queries issued so far, and the order of status queries and sleeps.
\<close>

record state =
  logged :: "(sink_level \<times> log_msg) list"
  exited :: bool
  txnCounter :: "string \<Rightarrow> nat"
  txnDuration :: "string \<Rightarrow> duration list"
  next_ctx :: nat
  cancelled :: "nat list"
  status_calls :: nat
  timeline :: "probe_event list"

text \<open>
  The sink. \<open>log.Fatalf\<close> writes the entry and exits the process; the other four only
  write.
\<close>

definition log_Fatalf :: "log_msg \<Rightarrow> state \<Rightarrow> state" where
  "log_Fatalf m s = s\<lparr>logged := logged s @ [(LOG_FATAL, m)], exited := True\<rparr>"

definition log_Errorf :: "log_msg \<Rightarrow> state \<Rightarrow> state" where
  "log_Errorf m s = s\<lparr>logged := logged s @ [(LOG_ERROR, m)]\<rparr>"

definition log_Warningf :: "log_msg \<Rightarrow> state \<Rightarrow> state" where
  "log_Warningf m s = s\<lparr>logged := logged s @ [(LOG_WARNING, m)]\<rparr>"

definition log_Warnf :: "log_msg \<Rightarrow> state \<Rightarrow> state" where
  "log_Warnf m s = s\<lparr>logged := logged s @ [(LOG_WARNING, m)]\<rparr>"

definition log_Infof :: "log_msg \<Rightarrow> state \<Rightarrow> state" where
  "log_Infof m s = s\<lparr>logged := logged s @ [(LOG_INFO, m)]\<rparr>"

definition log_Debugf :: "log_msg \<Rightarrow> state \<Rightarrow> state" where
  "log_Debugf m s = s\<lparr>logged := logged s @ [(LOG_DEBUG, m)]\<rparr>"

text \<open>
  \<open>context.WithTimeout\<close> hands out a fresh context, known by its number, together with
  its cancel function; running the cancel function records the number.
\<close>

definition WithTimeout :: "duration \<Rightarrow> state \<Rightarrow> nat \<times> state" where
  "WithTimeout d s = (next_ctx s, s\<lparr>next_ctx := Suc (next_ctx s)\<rparr>)"

definition cancel_ctx :: "nat \<Rightarrow> state \<Rightarrow> state" where
  "cancel_ctx n s = s\<lparr>cancelled := cancelled s @ [n]\<rparr>"

section \<open>The etcd client\<close>

text \<open>
  The client is outside the repository; it is a parameter. Each call answers with an
  error or a response (etcd returns exactly one of the two) and the wall time the call
  took, which is what the two \<open>time.Now()\<close> readings around it measure. The timeout of
  the context is passed on. The answer of a status query may change from one query to the
  next, so \<open>Status\<close> also takes the number of queries made before.
\<close>

datatype OpOption = WithPrefix | WithLimit int | WithRev int

record client =
  kv_Get :: "duration \<Rightarrow> string \<Rightarrow> OpOption list \<Rightarrow> (error + GetResponse) \<times> duration"
  Status :: "nat \<Rightarrow> duration \<Rightarrow> string \<Rightarrow> (error + StatusResponse) \<times> duration"

text \<open>\<open>return resp, errors.Trace(err)\<close> on an answer of the client.\<close>

definition traced :: "error + 'a \<Rightarrow> error + 'a" where
  "traced r = (case r of Inl e \<Rightarrow> Inl (Traced e) | Inr x \<Rightarrow> Inr x)"

definition kvGet ::
  "client \<Rightarrow> string \<Rightarrow> OpOption list \<Rightarrow> state \<Rightarrow> (error + GetResponse) \<times> state" where
  "kvGet c key opts s =
     (let (ctx, s1) = WithTimeout requestTimeout s;
          (r, cost) = kv_Get c requestTimeout key opts;
          s2 = cancel_ctx ctx s1;
          s3 = (if cost > slowRequestTime then log_Warnf (KvGetSlow key r cost) s2 else s2)
      in (traced r, s3))"

definition getValue ::
  "client \<Rightarrow> string \<Rightarrow> OpOption list \<Rightarrow> state \<Rightarrow> (error + bytes) \<times> state" where
  "getValue c key opts s =
     (case kvGet c key opts s of
        (Inl err, s') \<Rightarrow> (Inl (Traced err), s')
      | (Inr resp, s') \<Rightarrow>
          (let n = length (Kvs resp) in
           if n = 0 then (Inr None, s')
           else if n > 1 then (Inl (InvalidGetValueResp (Kvs resp)), s')
           else (Inr (Value (Kvs resp ! 0)), s')))"

text \<open>
  \<open>proto.Unmarshal\<close> is a parameter: from the bytes and the message behind the pointer it
  gives the error, if any, and the message afterwards. The result of \<open>getProtoMsg\<close> is the
  returned pair, the message behind \<open>msg\<close> and the state.
\<close>

definition getProtoMsg ::
  "(byte list \<Rightarrow> 'm \<Rightarrow> error option \<times> 'm) \<Rightarrow> client \<Rightarrow> string \<Rightarrow> 'm \<Rightarrow> OpOption list \<Rightarrow>
     state \<Rightarrow> (error + bool) \<times> 'm \<times> state" where
  "getProtoMsg Unmarshal c key msg opts s =
     (case getValue c key opts s of
        (Inl err, s') \<Rightarrow> (Inl (Traced err), msg, s')
      | (Inr None, s') \<Rightarrow> (Inr False, msg, s')
      | (Inr (Some v), s') \<Rightarrow>
          (case Unmarshal v msg of
             (Some err, msg') \<Rightarrow> (Inl (Traced err), msg', s')
           | (None, msg') \<Rightarrow> (Inr True, msg', s')))"

section \<open>\<open>bytesToUint64\<close> and \<open>uint64ToBytes\<close>\<close>

text \<open>
  \<open>binary.BigEndian.Uint64\<close> and \<open>binary.BigEndian.PutUint64\<close> of the Go standard
  library, on a slice that has at least eight bytes (both callers guarantee it).
\<close>

definition BigEndian_Uint64 :: "byte list \<Rightarrow> uint64" where
  "BigEndian_Uint64 b =
     ucast (b ! 7) OR push_bit 8 (ucast (b ! 6)) OR push_bit 16 (ucast (b ! 5)) OR
     push_bit 24 (ucast (b ! 4)) OR push_bit 32 (ucast (b ! 3)) OR
     push_bit 40 (ucast (b ! 2)) OR push_bit 48 (ucast (b ! 1)) OR
     push_bit 56 (ucast (b ! 0))"

definition BigEndian_PutUint64 :: "byte list \<Rightarrow> uint64 \<Rightarrow> byte list" where
  "BigEndian_PutUint64 b v =
     b[0 := ucast (drop_bit 56 v), 1 := ucast (drop_bit 48 v), 2 := ucast (drop_bit 40 v),
       3 := ucast (drop_bit 32 v), 4 := ucast (drop_bit 24 v), 5 := ucast (drop_bit 16 v),
       6 := ucast (drop_bit 8 v), 7 := ucast v]"

definition bytesToUint64 :: "bytes \<Rightarrow> error + uint64" where
  "bytesToUint64 b =
     (if len b \<noteq> 8 then Inl (InvalidData (len b))
      else Inr (BigEndian_Uint64 (elems b)))"

definition uint64ToBytes :: "uint64 \<Rightarrow> bytes" where
  "uint64ToBytes v = Some (BigEndian_PutUint64 (replicate 8 0) v)"

section \<open>The transaction wrapper \<open>slowLogTxn\<close>\<close>

text \<open>
  The wrapped \<open>clientv3.Txn\<close> belongs to the etcd client. It is a parameter: a type
  \<open>'t\<close> of transactions under construction with the interface's \<open>If\<close>, \<open>Then\<close> and
  \<open>Commit\<close>, and \<open>client.Txn(ctx)\<close> to start one. \<open>Commit\<close> runs against the
  store \<open>'kv\<close> and answers with an error or a response, the wall time taken and the store
  afterwards.
\<close>

datatype Cmp = Compare string string bytes

datatype Op = OpGet string | OpPut string bytes | OpDelete string

record ('t, 'kv) Txn_interface =
  client_Txn :: "nat \<Rightarrow> 't"
  Txn_If :: "'t \<Rightarrow> Cmp list \<Rightarrow> 't"
  Txn_Then :: "'t \<Rightarrow> Op list \<Rightarrow> 't"
  Txn_Commit :: "'t \<Rightarrow> 'kv \<Rightarrow> (error + TxnResponse) \<times> duration \<times> 'kv"

record 't slowLogTxn =
  Txn :: 't
  cancel :: nat

definition newSlowLogTxn :: "('t, 'kv) Txn_interface \<Rightarrow> state \<Rightarrow> 't slowLogTxn \<times> state" where
  "newSlowLogTxn I s =
     (let (ctx, s1) = WithTimeout requestTimeout s
      in (\<lparr>Txn = client_Txn I ctx, cancel = ctx\<rparr>, s1))"

definition If_txn :: "('t, 'kv) Txn_interface \<Rightarrow> 't slowLogTxn \<Rightarrow> Cmp list \<Rightarrow> 't slowLogTxn" where
  "If_txn I t cs = \<lparr>Txn = Txn_If I (Txn t) cs, cancel = cancel t\<rparr>"

definition Then_txn :: "('t, 'kv) Txn_interface \<Rightarrow> 't slowLogTxn \<Rightarrow> Op list \<Rightarrow> 't slowLogTxn" where
  "Then_txn I t ops = \<lparr>Txn = Txn_Then I (Txn t) ops, cancel = cancel t\<rparr>"

text \<open>
  \<open>Commit\<close>. The histogram is handed \<open>cost.Seconds()\<close>, a float; the model keeps the
  duration it is computed from.
\<close>

definition Commit ::
  "('t, 'kv) Txn_interface \<Rightarrow> 't slowLogTxn \<Rightarrow> state \<times> 'kv \<Rightarrow>
     (error + TxnResponse) \<times> state \<times> 'kv" where
  "Commit I t = (\<lambda>(s, kv).
     (let (r, cost, kv') = Txn_Commit I (Txn t) kv;
          s1 = cancel_ctx (cancel t) s;
          s2 = (if cost > slowRequestTime then log_Warnf (TxnSlow r cost) s1 else s1);
          label = (if isl r then ''failed'' else ''success'');
          s3 = s2\<lparr>txnCounter := (txnCounter s2)(label := txnCounter s2 label + 1)\<rparr>;
          s4 = s3\<lparr>txnDuration := (txnDuration s3)(label := txnDuration s3 label @ [cost])\<rparr>
      in (traced r, s4, kv')))"

section \<open>The readiness prober\<close>

definition endpointStatus ::
  "client \<Rightarrow> string \<Rightarrow> state \<Rightarrow> (error + StatusResponse) \<times> state" where
  "endpointStatus c endpoint s =
     (let (ctx, s1) = WithTimeout requestTimeout s;
          (r, cost) = Status c (status_calls s1) requestTimeout endpoint;
          s2 = s1\<lparr>status_calls := Suc (status_calls s1),
                  timeline := timeline s1 @ [StatusQuery endpoint]\<rparr>;
          s3 = cancel_ctx ctx s2;
          s4 = (if cost > slowRequestTime then log_Warnf (StatusSlow endpoint r cost) s3 else s3)
      in (traced r, s4))"

definition maxCheckEtcdRunningCount :: nat where
  "maxCheckEtcdRunningCount = 100"

definition checkEtcdRunningDelay :: duration where
  "checkEtcdRunningDelay = 100 * Millisecond"

definition time_Sleep :: "duration \<Rightarrow> state \<Rightarrow> state" where
  "time_Sleep d s = s\<lparr>timeline := timeline s @ [Sleep d]\<rparr>"

text \<open>
  The loop of \<open>waitEtcdStart\<close>, from the value \<open>i\<close> of its counter and the value
  \<open>err\<close> of its error variable.
\<close>

function waitEtcdStart_loop ::
  "client \<Rightarrow> string \<Rightarrow> nat \<Rightarrow> error option \<Rightarrow> state \<Rightarrow> error option \<times> state" where
  "waitEtcdStart_loop c endpoint i err s =
     (if i < maxCheckEtcdRunningCount then
        (case endpointStatus c endpoint s of
           (Inr _, s') \<Rightarrow> (None, s')
         | (Inl e, s') \<Rightarrow>
             waitEtcdStart_loop c endpoint (Suc i) (Some e) (time_Sleep checkEtcdRunningDelay s'))
      else (Trace err, s))"
  by pat_completeness auto
termination
  by (relation "measure (\<lambda>(c, endpoint, i, err, s). maxCheckEtcdRunningCount - i)") auto

declare waitEtcdStart_loop.simps [simp del]

definition waitEtcdStart :: "client \<Rightarrow> string \<Rightarrow> state \<Rightarrow> error option \<times> state" where
  "waitEtcdStart c endpoint s = waitEtcdStart_loop c endpoint 0 None s"

section \<open>The RPC client\<close>

record URL =
  Scheme :: string
  Host :: string

datatype conn = Conn (conn_id: nat) (conn_network: string) (conn_address: string)

datatype MessageType = MessageType_None | MessageType_PdReq | MessageType_PdResp

datatype Request = Request string
datatype Response = Response string

record Message =
  MsgType :: MessageType
  PdReq :: "Request option"
  PdResp :: "Response option"

text \<open>
  What lies outside \<open>util.go\<close>, as parameters: whether \<open>http.NewRequest\<close> on the
  constant \<open>pdRPCPrefix\<close> fails, \<open>ParseUrls\<close> (another file of the package),
  \<open>net.Dial\<close> (\<open>None\<close>: a connection was opened; the first argument is the number of dials
  made before, since the network may answer differently each time), \<open>req.Write\<close> on a
  connection, and \<open>util.WriteMessage\<close> and \<open>util.ReadMessage\<close> of the message codec.
\<close>

record network =
  NewRequest :: "error option"
  ParseUrls :: "string \<Rightarrow> error + URL list"
  Dial :: "nat \<Rightarrow> string \<Rightarrow> string \<Rightarrow> error option"
  req_Write :: "conn \<Rightarrow> error option"
  WriteMessage :: "conn \<Rightarrow> uint64 \<Rightarrow> Message \<Rightarrow> error option"
  ReadMessage :: "conn \<Rightarrow> error + uint64 \<times> Message"

text \<open>
  The sockets of the process: every \<open>net.Dial\<close> call made (network and address) in
  order, the connections opened, and the connections on which \<open>Close\<close> was called.
\<close>

record sockets =
  dialed :: "(string \<times> string) list"
  opened :: "conn list"
  closed :: "conn list"

definition conn_Close :: "conn \<Rightarrow> sockets \<Rightarrow> sockets" where
  "conn_Close c k = k\<lparr>closed := closed k @ [c]\<rparr>"

text \<open>The \<open>switch url.Scheme\<close> of \<open>rpcConnect\<close>: the network handed to \<open>net.Dial\<close>.\<close>

definition dial_network :: "URL \<Rightarrow> string" where
  "dial_network url =
     (if Scheme url = ''unix'' \<or> Scheme url = ''unixs'' then ''unix'' else ''tcp'')"

definition net_Dial ::
  "network \<Rightarrow> string \<Rightarrow> string \<Rightarrow> sockets \<Rightarrow> (error + conn) \<times> sockets" where
  "net_Dial N nw address k =
     (let n = length (dialed k); k1 = k\<lparr>dialed := dialed k @ [(nw, address)]\<rparr>
      in case Dial N n nw address of
           Some e \<Rightarrow> (Inl e, k1)
         | None \<Rightarrow> (Inr (Conn n nw address), k1\<lparr>opened := opened k1 @ [Conn n nw address]\<rparr>))"

text \<open>The \<open>for _, url := range urls\<close> loop of \<open>rpcConnect\<close>.\<close>

fun rpcConnect_urls :: "network \<Rightarrow> URL list \<Rightarrow> sockets \<Rightarrow> conn option \<times> sockets" where
  "rpcConnect_urls N [] k = (None, k)"
| "rpcConnect_urls N (url # urls) k =
     (case net_Dial N (dial_network url) (Host url) k of
        (Inl err, k1) \<Rightarrow> rpcConnect_urls N urls k1
      | (Inr conn, k1) \<Rightarrow>
          (case req_Write N conn of
             Some err \<Rightarrow> rpcConnect_urls N urls (conn_Close conn k1)
           | None \<Rightarrow> (Some conn, k1)))"

definition rpcConnect :: "network \<Rightarrow> string \<Rightarrow> sockets \<Rightarrow> (error + conn) \<times> sockets" where
  "rpcConnect N addr k =
     (case NewRequest N of
        Some err \<Rightarrow> (Inl (Traced err), k)
      | None \<Rightarrow>
          (case ParseUrls N addr of
             Inl err \<Rightarrow> (Inl (Traced err), k)
           | Inr urls \<Rightarrow>
               (case rpcConnect_urls N urls k of
                  (Some conn, k') \<Rightarrow> (Inr conn, k')
                | (None, k') \<Rightarrow> (Inl (ConnectFailed addr), k'))))"

text \<open>\<open>resp.GetPdResp()\<close> gives the response field, nil when it is not set.\<close>

definition rpcCall ::
  "network \<Rightarrow> conn \<Rightarrow> uint64 \<Rightarrow> Request \<Rightarrow> sockets \<Rightarrow> (error + Response option) \<times> sockets" where
  "rpcCall N conn reqID request k =
     (let req = \<lparr>MsgType = MessageType_PdReq, PdReq = Some request, PdResp = None\<rparr>
      in case WriteMessage N conn reqID req of
           Some err \<Rightarrow> (Inl (Traced err), k)
         | None \<Rightarrow>
             (case ReadMessage N conn of
                Inl err \<Rightarrow> (Inl (Traced err), k)
              | Inr (respID, resp) \<Rightarrow>
                  if respID \<noteq> reqID then (Inl (IdMismatch reqID respID), k)
                  else (Inr (PdResp resp), k)))"

definition RPCRequest ::
  "network \<Rightarrow> string \<Rightarrow> uint64 \<Rightarrow> Request \<Rightarrow> sockets \<Rightarrow> (error + Response option) \<times> sockets" where
  "RPCRequest N addr reqID request k =
     (case rpcConnect N addr k of
        (Inl err, k') \<Rightarrow> (Inl (Traced err), k')
      | (Inr conn, k') \<Rightarrow> rpcCall N conn reqID request k')"

section \<open>The log bridge \<open>redirectFormatter\<close>\<close>

datatype LogLevel = CRITICAL | ERROR | WARNING | NOTICE | INFO | DEBUG | TRACE

text \<open>\<open>LogLevel.Char\<close> of capnslog.\<close>

fun Char :: "LogLevel \<Rightarrow> string" where
  "Char CRITICAL = ''C''"
| "Char ERROR = ''E''"
| "Char WARNING = ''W''"
| "Char NOTICE = ''N''"
| "Char INFO = ''I''"
| "Char DEBUG = ''D''"
| "Char TRACE = ''T''"

text \<open>
  \<open>fmt.Sprint\<close> of the slice \<open>entries\<close>, each entry given by its default rendering: the
  entries between brackets, separated by a space.
\<close>

fun join_entries :: "string list \<Rightarrow> string" where
  "join_entries [] = []"
| "join_entries [e] = e"
| "join_entries (e # es) = e @ '' '' @ join_entries es"

definition Sprint_entries :: "string list \<Rightarrow> string" where
  "Sprint_entries entries = ''['' @ join_entries entries @ '']''"

definition Format :: "string \<Rightarrow> LogLevel \<Rightarrow> int \<Rightarrow> string list \<Rightarrow> state \<Rightarrow> state" where
  "Format pkg level depth entries s =
     (let pkg' = (if pkg \<noteq> [] then pkg @ '': '' else pkg);
          logStr = Char level @ '' | '' @ pkg' @ Sprint_entries entries
      in case level of
           CRITICAL \<Rightarrow> log_Fatalf (Text logStr) s
         | ERROR \<Rightarrow> log_Errorf (Text logStr) s
         | WARNING \<Rightarrow> log_Warningf (Text logStr) s
         | NOTICE \<Rightarrow> log_Infof (Text logStr) s
         | INFO \<Rightarrow> log_Infof (Text logStr) s
         | DEBUG \<Rightarrow> log_Debugf (Text logStr) s
         | TRACE \<Rightarrow> log_Debugf (Text logStr) s)"

section \<open>Sequences of wrapper calls\<close>

text \<open>
  A sequence of \<open>If\<close> and \<open>Then\<close> calls, made on the wrapper and made on the wrapped
  transaction itself.
\<close>

datatype txn_call = Call_If "Cmp list" | Call_Then "Op list"

fun wrapper_calls ::
  "('t, 'kv) Txn_interface \<Rightarrow> 't slowLogTxn \<Rightarrow> txn_call list \<Rightarrow> 't slowLogTxn" where
  "wrapper_calls I t [] = t"
| "wrapper_calls I t (Call_If cs # calls) = wrapper_calls I (If_txn I t cs) calls"
| "wrapper_calls I t (Call_Then ops # calls) = wrapper_calls I (Then_txn I t ops) calls"

fun underlying_calls :: "('t, 'kv) Txn_interface \<Rightarrow> 't \<Rightarrow> txn_call list \<Rightarrow> 't" where
  "underlying_calls I u [] = u"
| "underlying_calls I u (Call_If cs # calls) = underlying_calls I (Txn_If I u cs) calls"
| "underlying_calls I u (Call_Then ops # calls) = underlying_calls I (Txn_Then I u ops) calls"

section \<open>Concrete inputs\<close>

definition state0 :: state where
  "state0 = \<lparr>logged = [], exited = False, txnCounter = (\<lambda>l. 0), txnDuration = (\<lambda>l. []),
     next_ctx = 0, cancelled = [], status_calls = 0, timeline = []\<rparr>"

text \<open>A client whose \<open>Get\<close> answers with the given entries, and whose status is good.\<close>

definition client_with :: "KeyValue list \<Rightarrow> client" where
  "client_with kvs =
     \<lparr>kv_Get = (\<lambda>d key opts. (Inr \<lparr>Kvs = kvs\<rparr>, 5 * Millisecond)),
      Status = (\<lambda>n d endpoint. (Inr \<lparr>Version = ''3.0''\<rparr>, 5 * Millisecond))\<rparr>"

definition kv_a :: KeyValue where
  "kv_a = \<lparr>Key = Some [1], Value = Some [10, 20, 30]\<rparr>"

definition kv_b :: KeyValue where
  "kv_b = \<lparr>Key = Some [2], Value = Some [40]\<rparr>"

text \<open>An entry whose value is the nil slice, as for a key stored with an empty value.\<close>

definition kv_nil :: KeyValue where
  "kv_nil = \<lparr>Key = Some [3], Value = None\<rparr>"

text \<open>An entry whose value is an empty slice that is not nil.\<close>

definition kv_empty :: KeyValue where
  "kv_empty = \<lparr>Key = Some [4], Value = Some []\<rparr>"

text \<open>
  A transaction interface for examples: a transaction under construction is the pair of
  its conditions and its operations, and \<open>Commit\<close> answers as given without touching the
  store.
\<close>

definition txn_answering ::
  "error + TxnResponse \<Rightarrow> duration \<Rightarrow> (Cmp list \<times> Op list, (string \<times> bytes) list) Txn_interface" where
  "txn_answering r cost =
     \<lparr>client_Txn = (\<lambda>ctx. ([], [])),
      Txn_If = (\<lambda>u cs. (fst u @ cs, snd u)),
      Txn_Then = (\<lambda>u ops. (fst u, snd u @ ops)),
      Txn_Commit = (\<lambda>u kv. (r, cost, kv))\<rparr>"

definition txn0 :: "(Cmp list \<times> Op list) slowLogTxn" where
  "txn0 = \<lparr>Txn = ([], []), cancel = 0\<rparr>"

text \<open>
  Vocabulary for the candidates of \<open>rpcConnect\<close>: what is dialed for a URL, the connection
  the \<open>n\<close>-th dial of the process opens for it, and the candidate failing, that is, that
  dial or the preflight write on that connection giving an error.
\<close>

definition dial_target :: "URL \<Rightarrow> string \<times> string" where
  "dial_target url = (dial_network url, Host url)"

definition candidate_conn :: "nat \<Rightarrow> URL \<Rightarrow> conn" where
  "candidate_conn n url = Conn n (dial_network url) (Host url)"

definition candidate_fails :: "network \<Rightarrow> nat \<Rightarrow> URL \<Rightarrow> bool" where
  "candidate_fails N n url =
     (Dial N n (dial_network url) (Host url) \<noteq> None \<or>
      req_Write N (candidate_conn n url) \<noteq> None)"

text \<open>Networks and an address with two candidates.\<close>

definition url_a :: URL where "url_a = \<lparr>Scheme = ''tcp'', Host = ''a:1''\<rparr>"
definition url_b :: URL where "url_b = \<lparr>Scheme = ''unix'', Host = ''b.sock''\<rparr>"

definition pong :: Message where
  "pong = \<lparr>MsgType = MessageType_PdResp, PdReq = None, PdResp = Some (Response ''pong'')\<rparr>"

definition sockets0 :: sockets where
  "sockets0 = \<lparr>dialed = [], opened = [], closed = []\<rparr>"

text \<open>Every candidate connects, and the peer answers with the given correlation id.\<close>

definition net_answering :: "uint64 \<Rightarrow> network" where
  "net_answering respID =
     \<lparr>NewRequest = None,
      ParseUrls = (\<lambda>addr. Inr [url_a, url_b]),
      Dial = (\<lambda>n nw address. None),
      req_Write = (\<lambda>c. None),
      WriteMessage = (\<lambda>c reqID m. None),
      ReadMessage = (\<lambda>c. Inr (respID, pong))\<rparr>"

text \<open>As before, but sending the request frame to \<open>a:1\<close> fails.\<close>

definition net_send_fails :: network where
  "net_send_fails =
     \<lparr>NewRequest = None,
      ParseUrls = (\<lambda>addr. Inr [url_a, url_b]),
      Dial = (\<lambda>n nw address. None),
      req_Write = (\<lambda>c. None),
      WriteMessage = (\<lambda>c reqID m.
        if conn_address c = ''a:1'' then Some (External ''broken pipe'') else None),
      ReadMessage = (\<lambda>c. Inr (7, pong))\<rparr>"

text \<open>\<open>a:1\<close> refuses the connection; \<open>b.sock\<close> accepts it and fails the preflight write.\<close>

definition net_down :: network where
  "net_down =
     \<lparr>NewRequest = None,
      ParseUrls = (\<lambda>addr. Inr [url_a, url_b]),
      Dial = (\<lambda>n nw address.
        if address = ''a:1'' then Some (External ''connection refused'') else None),
      req_Write = (\<lambda>c. Some (External ''broken pipe'')),
      WriteMessage = (\<lambda>c reqID m. None),
      ReadMessage = (\<lambda>c. Inr (7, pong))\<rparr>"

text \<open>\<open>a:1\<close> refuses the connection; \<open>b.sock\<close> works.\<close>

definition net_first_down :: network where
  "net_first_down =
     \<lparr>NewRequest = None,
      ParseUrls = (\<lambda>addr. Inr [url_a, url_b]),
      Dial = (\<lambda>n nw address.
        if address = ''a:1'' then Some (External ''connection refused'') else None),
      req_Write = (\<lambda>c. None),
      WriteMessage = (\<lambda>c reqID m. None),
      ReadMessage = (\<lambda>c. Inr (7, pong))\<rparr>"

text \<open>A store whose first \<open>n\<close> status queries fail and whose later ones succeed.\<close>

definition client_ready_after :: "nat \<Rightarrow> client" where
  "client_ready_after n =
     \<lparr>kv_Get = (\<lambda>d key opts. (Inr \<lparr>Kvs = []\<rparr>, 5 * Millisecond)),
      Status = (\<lambda>k d endpoint.
        if k < n then (Inl (External ''unavailable''), 5 * Millisecond)
        else (Inr \<lparr>Version = ''3.0''\<rparr>, 5 * Millisecond))\<rparr>"

text \<open>A store whose status queries always fail.\<close>

definition client_never_ready :: client where
  "client_never_ready =
     \<lparr>kv_Get = (\<lambda>d key opts. (Inr \<lparr>Kvs = []\<rparr>, 5 * Millisecond)),
      Status = (\<lambda>k d endpoint. (Inl (External ''unavailable''), 5 * Millisecond))\<rparr>"

text \<open>
  An \<open>Unmarshal\<close> for a message type with a required field: it rejects the empty input
  and takes any other input as the message.
\<close>

definition Unmarshal_required :: "byte list \<Rightarrow> byte list \<Rightarrow> error option \<times> byte list" where
  "Unmarshal_required v msg =
     (if v = [] then (Some (External ''required field not set''), []) else (None, v))"

section \<open>Theorems\<close>

subsection \<open>The single-key lookup\<close>

lemma fst_kvGet: "fst (kvGet c key opts s) = traced (fst (kv_Get c requestTimeout key opts))"
  by (simp add: kvGet_def WithTimeout_def Let_def split: prod.splits)

lemma fst_getValue:
  "fst (getValue c key opts s) =
     (case fst (kv_Get c requestTimeout key opts) of
        Inl e \<Rightarrow> Inl (Traced (Traced e))
      | Inr resp \<Rightarrow>
          if length (Kvs resp) = 0 then Inr None
          else if length (Kvs resp) > 1 then Inl (InvalidGetValueResp (Kvs resp))
          else Inr (Value (Kvs resp ! 0)))"
proof -
  obtain r s' where k: "kvGet c key opts s = (r, s')"
    by (cases "kvGet c key opts s")
  then have "r = traced (fst (kv_Get c requestTimeout key opts))"
    using fst_kvGet [of c key opts s] by simp
  with k show ?thesis
    by (simp add: getValue_def traced_def Let_def split: sum.splits)
qed

text \<open>
  C1. A single-key lookup whose query answers with no entry returns \<open>(nil, nil)\<close>; with
  more than one entry it fails with the error that carries the entries; with exactly one
  entry it returns that entry's value as it is.
\<close>

theorem getValue_single_key:
  assumes "fst (kv_Get c requestTimeout key opts) = Inr resp"
  shows "(Kvs resp = [] \<longrightarrow> fst (getValue c key opts s) = Inr None) \<and>
         (length (Kvs resp) > 1 \<longrightarrow>
            fst (getValue c key opts s) = Inl (InvalidGetValueResp (Kvs resp))) \<and>
         (\<forall>kv. Kvs resp = [kv] \<longrightarrow> fst (getValue c key opts s) = Inr (Value kv))"
  using assms by (simp add: fst_getValue)

theorem getValue_single_key_witness:
  "fst (kv_Get (client_with []) requestTimeout ''k'' []) = Inr \<lparr>Kvs = []\<rparr> \<and>
   fst (getValue (client_with []) ''k'' [] state0) = Inr None \<and>
   fst (kv_Get (client_with [kv_a, kv_b]) requestTimeout ''k'' []) = Inr \<lparr>Kvs = [kv_a, kv_b]\<rparr> \<and>
   fst (getValue (client_with [kv_a, kv_b]) ''k'' [] state0) =
     Inl (InvalidGetValueResp [kv_a, kv_b]) \<and>
   fst (kv_Get (client_with [kv_a]) requestTimeout ''k'' []) = Inr \<lparr>Kvs = [kv_a]\<rparr> \<and>
   fst (getValue (client_with [kv_a]) ''k'' [] state0) = Inr (Some [10, 20, 30])"
  using getValue_single_key [of "client_with []" "''k''" "[]" "\<lparr>Kvs = []\<rparr>" state0]
    getValue_single_key [of "client_with [kv_a, kv_b]" "''k''" "[]" "\<lparr>Kvs = [kv_a, kv_b]\<rparr>" state0]
    getValue_single_key [of "client_with [kv_a]" "''k''" "[]" "\<lparr>Kvs = [kv_a]\<rparr>" state0]
  by (simp add: client_with_def kv_a_def)

subsection \<open>The integer codec\<close>

lemma PutUint64_bytes:
  "BigEndian_PutUint64 (replicate 8 0) v =
     [ucast (drop_bit 56 v), ucast (drop_bit 48 v), ucast (drop_bit 40 v),
      ucast (drop_bit 32 v), ucast (drop_bit 24 v), ucast (drop_bit 16 v),
      ucast (drop_bit 8 v), ucast v]"
  by (simp add: BigEndian_PutUint64_def numeral_eq_Suc)

lemma Uint64_bytes:
  "BigEndian_Uint64 [b0, b1, b2, b3, b4, b5, b6, b7] =
     ucast b7 OR push_bit 8 (ucast b6) OR push_bit 16 (ucast b5) OR
     push_bit 24 (ucast b4) OR push_bit 32 (ucast b3) OR
     push_bit 40 (ucast b2) OR push_bit 48 (ucast b1) OR push_bit 56 (ucast b0)"
  by (simp add: BigEndian_Uint64_def)

lemma bit_shifted_byte:
  "bit (push_bit k (ucast (ucast (drop_bit k v) :: byte)) :: uint64) n \<longleftrightarrow>
     k \<le> n \<and> n < k + 8 \<and> n < 64 \<and> bit v n"
  by (auto simp: bit_push_bit_iff bit_ucast_iff bit_drop_bit_eq dest: bit_imp_le_length)

lemma bit_low_byte:
  "bit (ucast (ucast v :: byte) :: uint64) n \<longleftrightarrow> n < 8 \<and> bit v n"
  by (auto simp: bit_ucast_iff dest: bit_imp_le_length)

lemma Uint64_PutUint64:
  "BigEndian_Uint64 (BigEndian_PutUint64 (replicate 8 0) v) = v"
  unfolding PutUint64_bytes Uint64_bytes
proof (rule bit_word_eqI)
  fix n :: nat
  assume "n < LENGTH(64)"
  then have n: "n < 64" by simp
  have "bit (ucast (ucast v :: byte) OR push_bit 8 (ucast (ucast (drop_bit 8 v) :: byte)) OR
     push_bit 16 (ucast (ucast (drop_bit 16 v) :: byte)) OR
     push_bit 24 (ucast (ucast (drop_bit 24 v) :: byte)) OR
     push_bit 32 (ucast (ucast (drop_bit 32 v) :: byte)) OR
     push_bit 40 (ucast (ucast (drop_bit 40 v) :: byte)) OR
     push_bit 48 (ucast (ucast (drop_bit 48 v) :: byte)) OR
     push_bit 56 (ucast (ucast (drop_bit 56 v) :: byte)) :: uint64) n \<longleftrightarrow>
     (n < 8 \<and> bit v n) \<or> (8 \<le> n \<and> n < 8 + 8 \<and> n < 64 \<and> bit v n) \<or>
     (16 \<le> n \<and> n < 16 + 8 \<and> n < 64 \<and> bit v n) \<or>
     (24 \<le> n \<and> n < 24 + 8 \<and> n < 64 \<and> bit v n) \<or>
     (32 \<le> n \<and> n < 32 + 8 \<and> n < 64 \<and> bit v n) \<or>
     (40 \<le> n \<and> n < 40 + 8 \<and> n < 64 \<and> bit v n) \<or>
     (48 \<le> n \<and> n < 48 + 8 \<and> n < 64 \<and> bit v n) \<or>
     (56 \<le> n \<and> n < 56 + 8 \<and> n < 64 \<and> bit v n)"
    by (simp only: bit_or_iff bit_shifted_byte bit_low_byte)
  also have "\<dots> \<longleftrightarrow> bit v n"
    using n by (cases "bit v n") (simp_all, arith)
  finally show "bit (ucast (ucast v :: byte) OR push_bit 8 (ucast (ucast (drop_bit 8 v) :: byte)) OR
     push_bit 16 (ucast (ucast (drop_bit 16 v) :: byte)) OR
     push_bit 24 (ucast (ucast (drop_bit 24 v) :: byte)) OR
     push_bit 32 (ucast (ucast (drop_bit 32 v) :: byte)) OR
     push_bit 40 (ucast (ucast (drop_bit 40 v) :: byte)) OR
     push_bit 48 (ucast (ucast (drop_bit 48 v) :: byte)) OR
     push_bit 56 (ucast (ucast (drop_bit 56 v) :: byte)) :: uint64) n = bit v n" .
qed

lemma len_uint64ToBytes: "len (uint64ToBytes v) = 8"
  by (simp add: uint64ToBytes_def len_def BigEndian_PutUint64_def)

text \<open>
  C10. Decoding the eight big-endian bytes of \<open>v\<close> gives \<open>v\<close> and no error, and
  \<open>bytesToUint64\<close> gives an error exactly on a slice whose length is not 8.
\<close>

theorem bytesToUint64_uint64ToBytes:
  "bytesToUint64 (uint64ToBytes v) = Inr v \<and> (isl (bytesToUint64 b) \<longleftrightarrow> len b \<noteq> 8)"
proof
  show "bytesToUint64 (uint64ToBytes v) = Inr v"
    using len_uint64ToBytes [of v] Uint64_PutUint64 [of v]
    by (simp add: bytesToUint64_def) (simp add: uint64ToBytes_def elems_def)
  show "isl (bytesToUint64 b) \<longleftrightarrow> len b \<noteq> 8"
    by (simp add: bytesToUint64_def)
qed

subsection \<open>The typed lookup\<close>

lemma getProtoMsg_result:
  "fst (getProtoMsg Unmarshal c key msg opts s) =
     (case fst (getValue c key opts s) of
        Inl err \<Rightarrow> Inl (Traced err)
      | Inr None \<Rightarrow> Inr False
      | Inr (Some v) \<Rightarrow>
          (case fst (Unmarshal v msg) of Some err \<Rightarrow> Inl (Traced err) | None \<Rightarrow> Inr True))"
  by (cases "getValue c key opts s")
     (simp add: getProtoMsg_def split: sum.splits option.splits prod.splits)

lemma getProtoMsg_message:
  "fst (snd (getProtoMsg Unmarshal c key msg opts s)) =
     (case fst (getValue c key opts s) of
        Inl err \<Rightarrow> msg
      | Inr None \<Rightarrow> msg
      | Inr (Some v) \<Rightarrow> snd (Unmarshal v msg))"
  by (cases "getValue c key opts s")
     (simp add: getProtoMsg_def split: sum.splits option.splits prod.splits)

text \<open>
  What \<open>getProtoMsg\<close> returns, case by case. When the lookup finds no entry, or finds
  the one entry with a nil value, it returns \<open>(false, nil)\<close> and leaves the message
  alone. When the entry's value is not nil and \<open>Unmarshal\<close> rejects it, it returns that
  error, traced. When the value is not nil and \<open>Unmarshal\<close> accepts it, it returns
  \<open>(true, nil)\<close> and the message is what \<open>Unmarshal\<close> made of the stored bytes.
\<close>

lemma getProtoMsg_cases:
  assumes "fst (kv_Get c requestTimeout key opts) = Inr resp"
  shows
    "(Kvs resp = [] \<longrightarrow>
        fst (getProtoMsg Unmarshal c key msg opts s) = Inr False \<and>
        fst (snd (getProtoMsg Unmarshal c key msg opts s)) = msg) \<and>
     (\<forall>kv. Kvs resp = [kv] \<longrightarrow> Value kv = None \<longrightarrow>
        fst (getProtoMsg Unmarshal c key msg opts s) = Inr False \<and>
        fst (snd (getProtoMsg Unmarshal c key msg opts s)) = msg) \<and>
     (\<forall>kv v e msg'. Kvs resp = [kv] \<longrightarrow> Value kv = Some v \<longrightarrow>
        Unmarshal v msg = (Some e, msg') \<longrightarrow>
        fst (getProtoMsg Unmarshal c key msg opts s) = Inl (Traced e)) \<and>
     (\<forall>kv v msg'. Kvs resp = [kv] \<longrightarrow> Value kv = Some v \<longrightarrow>
        Unmarshal v msg = (None, msg') \<longrightarrow>
        fst (getProtoMsg Unmarshal c key msg opts s) = Inr True \<and>
        fst (snd (getProtoMsg Unmarshal c key msg opts s)) = msg')"
  using assms by (simp add: getProtoMsg_result getProtoMsg_message fst_getValue)

lemma getProtoMsg_cases_at_inputs:
  "fst (getProtoMsg Unmarshal_required (client_with []) ''k'' [9] [] state0) = Inr False \<and>
   fst (snd (getProtoMsg Unmarshal_required (client_with []) ''k'' [9] [] state0)) = [9] \<and>
   fst (getProtoMsg Unmarshal_required (client_with [kv_nil]) ''k'' [9] [] state0) = Inr False \<and>
   fst (getProtoMsg Unmarshal_required (client_with [kv_empty]) ''k'' [9] [] state0) =
     Inl (Traced (External ''required field not set'')) \<and>
   fst (getProtoMsg Unmarshal_required (client_with [kv_a]) ''k'' [9] [] state0) = Inr True \<and>
   fst (snd (getProtoMsg Unmarshal_required (client_with [kv_a]) ''k'' [9] [] state0)) =
     [10, 20, 30]"
proof -
  have a: "\<And>kvs. fst (kv_Get (client_with kvs) requestTimeout ''k'' []) = Inr \<lparr>Kvs = kvs\<rparr>"
    by (simp add: client_with_def)
  show ?thesis
    using getProtoMsg_cases [OF a, where Unmarshal = Unmarshal_required and msg = "[9]"
        and s = state0 and kvs1 = "[]"]
      getProtoMsg_cases [OF a, where Unmarshal = Unmarshal_required and msg = "[9]"
        and s = state0 and kvs1 = "[kv_nil]"]
      getProtoMsg_cases [OF a, where Unmarshal = Unmarshal_required and msg = "[9]"
        and s = state0 and kvs1 = "[kv_empty]"]
      getProtoMsg_cases [OF a, where Unmarshal = Unmarshal_required and msg = "[9]"
        and s = state0 and kvs1 = "[kv_a]"]
    by (simp add: Unmarshal_required_def kv_nil_def kv_empty_def kv_a_def)
qed

text \<open>
  C8 on the code. The returned boolean is documented to tell whether the key exists, and
  a key that exists with bytes that do not parse is to give an error. At a key that
  exists with a nil value (the query answers with its one entry), for a message type
  that the empty input does not parse as, \<open>getProtoMsg\<close> returns \<open>(false, nil)\<close> and
  leaves the message alone, exactly as it does for a key that does not exist: nil is how
  \<open>getValue\<close> reports no entry, and the value of the entry is nil as well.
\<close>

theorem getProtoMsg_nil_value_not_an_error:
  "fst (kv_Get (client_with [kv_nil]) requestTimeout ''k'' []) = Inr \<lparr>Kvs = [kv_nil]\<rparr> \<and>
   fst (Unmarshal_required (elems (Value kv_nil)) [9]) = Some (External ''required field not set'') \<and>
   fst (getProtoMsg Unmarshal_required (client_with [kv_nil]) ''k'' [9] [] state0) = Inr False \<and>
   fst (snd (getProtoMsg Unmarshal_required (client_with [kv_nil]) ''k'' [9] [] state0)) = [9] \<and>
   fst (getProtoMsg Unmarshal_required (client_with []) ''k'' [9] [] state0) = Inr False"
  by (simp add: getProtoMsg_result getProtoMsg_message fst_getValue client_with_def kv_nil_def
      elems_def Unmarshal_required_def)

subsection \<open>The RPC client\<close>

text \<open>
  C4. When the frame read back carries a correlation id other than the request's, the
  call returns the mismatch error and not the response, whatever the payload; a call that
  returns a response has read a frame with the request's id. This holds for \<open>rpcCall\<close>
  and for \<open>RPCRequest\<close>, which ends in it.
\<close>

theorem rpcCall_correlation_id:
  "(WriteMessage N conn reqID
      \<lparr>MsgType = MessageType_PdReq, PdReq = Some request, PdResp = None\<rparr> = None \<longrightarrow>
    ReadMessage N conn = Inr (respID, resp) \<longrightarrow> respID \<noteq> reqID \<longrightarrow>
      fst (rpcCall N conn reqID request k) = Inl (IdMismatch reqID respID)) \<and>
   (fst (rpcCall N conn reqID request k) = Inr r \<longrightarrow>
      (\<exists>resp'. ReadMessage N conn = Inr (reqID, resp') \<and> r = PdResp resp')) \<and>
   (fst (RPCRequest N addr reqID request k) = Inr r \<longrightarrow>
      (\<exists>conn' resp'. fst (rpcConnect N addr k) = Inr conn' \<and>
         ReadMessage N conn' = Inr (reqID, resp') \<and> r = PdResp resp'))"
proof (intro conjI impI)
  assume "WriteMessage N conn reqID
      \<lparr>MsgType = MessageType_PdReq, PdReq = Some request, PdResp = None\<rparr> = None"
    and "ReadMessage N conn = Inr (respID, resp)" and "respID \<noteq> reqID"
  then show "fst (rpcCall N conn reqID request k) = Inl (IdMismatch reqID respID)"
    by (simp add: rpcCall_def)
next
  assume "fst (rpcCall N conn reqID request k) = Inr r"
  then show "\<exists>resp'. ReadMessage N conn = Inr (reqID, resp') \<and> r = PdResp resp'"
    by (auto simp: rpcCall_def split: option.splits sum.splits if_splits)
next
  assume ok: "fst (RPCRequest N addr reqID request k) = Inr r"
  obtain rc k' where c: "rpcConnect N addr k = (rc, k')"
    by (cases "rpcConnect N addr k")
  with ok obtain conn' where rc: "rc = Inr conn'"
    by (cases rc) (simp_all add: RPCRequest_def)
  with ok c have "fst (rpcCall N conn' reqID request k') = Inr r"
    by (simp add: RPCRequest_def)
  then have "\<exists>resp'. ReadMessage N conn' = Inr (reqID, resp') \<and> r = PdResp resp'"
    by (auto simp: rpcCall_def split: option.splits sum.splits if_splits)
  with c rc show "\<exists>conn' resp'. fst (rpcConnect N addr k) = Inr conn' \<and>
         ReadMessage N conn' = Inr (reqID, resp') \<and> r = PdResp resp'"
    by auto
qed

theorem rpcCall_correlation_id_witness:
  "fst (rpcCall (net_answering 8) (Conn 0 ''tcp'' ''a:1'') 7 (Request ''ping'') sockets0) =
     Inl (IdMismatch 7 8) \<and>
   fst (rpcCall (net_answering 7) (Conn 0 ''tcp'' ''a:1'') 7 (Request ''ping'') sockets0) =
     Inr (Some (Response ''pong'')) \<and>
   fst (RPCRequest (net_answering 7) ''tcp://a:1,unix://b.sock'' 7 (Request ''ping'') sockets0) =
     Inr (Some (Response ''pong'')) \<and>
   ReadMessage (net_answering 7) (Conn 0 ''tcp'' ''a:1'') = Inr (7, pong)"
proof -
  have w: "fst (rpcCall (net_answering 7) (Conn 0 ''tcp'' ''a:1'') 7 (Request ''ping'') sockets0) =
     Inr (Some (Response ''pong''))"
    by (simp add: rpcCall_def net_answering_def pong_def)
  have q: "fst (RPCRequest (net_answering 7) ''tcp://a:1,unix://b.sock'' 7 (Request ''ping'')
      sockets0) = Inr (Some (Response ''pong''))"
    by (simp add: RPCRequest_def rpcConnect_def net_Dial_def dial_network_def rpcCall_def
        net_answering_def pong_def url_a_def url_b_def sockets0_def)
  show ?thesis
    using rpcCall_correlation_id [of "net_answering 8" "Conn 0 ''tcp'' ''a:1''" 7
        "Request ''ping''" 8 pong sockets0 "Some (Response ''pong'')"
        "''tcp://a:1,unix://b.sock''"]
      rpcCall_correlation_id [of "net_answering 7" "Conn 0 ''tcp'' ''a:1''" 7
        "Request ''ping''" 8 pong sockets0 "Some (Response ''pong'')"
        "''tcp://a:1,unix://b.sock''"] w q
    by (simp add: net_answering_def)
qed

subsection \<open>The transaction wrapper\<close>

lemma isl_traced: "isl (traced r) = isl r"
  by (cases r) (simp_all add: traced_def)

text \<open>
  C5. One \<open>Commit\<close> of the wrapper adds one to the counter of exactly one label and
  appends one observation, the measured duration, to the histogram of the same label:
  \<open>failed\<close> when \<open>Commit\<close> returns an error, \<open>success\<close> when it returns none.
\<close>

theorem Commit_metrics:
  assumes "Commit I t (s, kv) = (r, s', kv')"
    and "label = (if isl r then ''failed'' else ''success'')"
  shows "txnCounter s' = (txnCounter s)(label := txnCounter s label + 1) \<and>
         txnDuration s' =
           (txnDuration s)(label := txnDuration s label @ [fst (snd (Txn_Commit I (Txn t) kv))])"
proof -
  obtain u cost kv1 where u: "Txn_Commit I (Txn t) kv = (u, cost, kv1)"
    by (cases "Txn_Commit I (Txn t) kv")
  with assms(1) have r: "r = traced u"
    by (auto simp: Commit_def Let_def)
  from assms(1) u show ?thesis
    unfolding assms(2) r isl_traced
    by (auto simp: Commit_def Let_def cancel_ctx_def log_Warnf_def)
qed

theorem Commit_metrics_witness:
  "txnCounter (fst (snd (Commit (txn_answering (Inr \<lparr>Succeeded = True\<rparr>) 2000000) txn0
      (state0, [])))) = (\<lambda>l. 0)(''success'' := 1) \<and>
   txnDuration (fst (snd (Commit (txn_answering (Inr \<lparr>Succeeded = True\<rparr>) 2000000) txn0
      (state0, [])))) = (\<lambda>l. [])(''success'' := [2000000]) \<and>
   txnCounter (fst (snd (Commit (txn_answering (Inl (External ''timeout'')) 10000000000) txn0
      (state0, [])))) = (\<lambda>l. 0)(''failed'' := 1) \<and>
   txnDuration (fst (snd (Commit (txn_answering (Inl (External ''timeout'')) 10000000000) txn0
      (state0, [])))) = (\<lambda>l. [])(''failed'' := [10000000000])"
proof -
  let ?ok = "Commit (txn_answering (Inr \<lparr>Succeeded = True\<rparr>) 2000000) txn0 (state0, [])"
  let ?ko = "Commit (txn_answering (Inl (External ''timeout'')) 10000000000) txn0 (state0, [])"
  have a: "fst ?ok = Inr \<lparr>Succeeded = True\<rparr>"
    by (simp add: Commit_def txn_answering_def traced_def Let_def)
  have b: "fst ?ko = Inl (Traced (External ''timeout''))"
    by (simp add: Commit_def txn_answering_def traced_def Let_def)
  have c: "?ok = (fst ?ok, fst (snd ?ok), snd (snd ?ok))" by simp
  have d: "?ko = (fst ?ko, fst (snd ?ko), snd (snd ?ko))" by simp
  show ?thesis
    using Commit_metrics [OF c refl] Commit_metrics [OF d refl]
    unfolding a b
    by (simp add: txn_answering_def state0_def)
qed

lemma Txn_wrapper_calls:
  "Txn (wrapper_calls I t calls) = underlying_calls I (Txn t) calls"
proof (induction calls arbitrary: t)
  case Nil
  show ?case by simp
next
  case (Cons call calls)
  show ?case
    by (cases call) (simp_all add: Cons.IH If_txn_def Then_txn_def)
qed

lemma Commit_result:
  "Commit I t (s, kv) =
     (traced (fst (Txn_Commit I (Txn t) kv)), fst (snd (Commit I t (s, kv))),
      snd (snd (Txn_Commit I (Txn t) kv)))"
  by (cases "Txn_Commit I (Txn t) kv") (simp add: Commit_def Let_def)

lemma cancel_wrapper_calls: "cancel (wrapper_calls I t calls) = cancel t"
proof (induction calls arbitrary: t)
  case Nil
  show ?case by simp
next
  case (Cons call calls)
  show ?case
    by (cases call) (simp_all add: Cons.IH If_txn_def Then_txn_def)
qed

text \<open>
  The process state after \<open>Commit\<close> of the wrapper: the state before, with the cancel
  function run, the slow-transaction warning if the commit took longer than the
  threshold, and the two metrics of the outcome's label.
\<close>

lemma Commit_state:
  "fst (snd (Commit I t (s, kv))) =
     s\<lparr>cancelled := cancelled s @ [cancel t],
       logged := logged s @
         (if slowRequestTime < fst (snd (Txn_Commit I (Txn t) kv))
          then [(LOG_WARNING,
                 TxnSlow (fst (Txn_Commit I (Txn t) kv)) (fst (snd (Txn_Commit I (Txn t) kv))))]
          else []),
       txnCounter := (txnCounter s)
         ((if isl (fst (Txn_Commit I (Txn t) kv)) then ''failed'' else ''success'') :=
            txnCounter s (if isl (fst (Txn_Commit I (Txn t) kv)) then ''failed'' else ''success'')
              + 1),
       txnDuration := (txnDuration s)
         ((if isl (fst (Txn_Commit I (Txn t) kv)) then ''failed'' else ''success'') :=
            txnDuration s (if isl (fst (Txn_Commit I (Txn t) kv)) then ''failed'' else ''success'')
              @ [fst (snd (Txn_Commit I (Txn t) kv))])\<rparr>"
  by (cases "Txn_Commit I (Txn t) kv")
     (simp add: Commit_def Let_def cancel_ctx_def log_Warnf_def)

text \<open>
  C6. After any sequence of \<open>If\<close> and \<open>Then\<close> calls, the transaction inside the wrapper
  is the one the same calls build on the wrapped transaction, and the wrapper still holds
  the cancel function it was made with; this holds from the fresh wrapper on, whose
  making only creates the context with the request timeout. \<open>Commit\<close> of the wrapper
  returns what \<open>Commit\<close> of that transaction returns, an error traced once, and leaves the
  store as that \<open>Commit\<close> leaves it. Beyond that it only runs the cancel function once,
  logs one warning when the commit was slow and none otherwise, and records the two
  metrics at the outcome's label; it does not exit the process, create a context, query
  the status or sleep.
\<close>

theorem slowLogTxn_refines_Txn:
  "Txn (wrapper_calls I t calls) = underlying_calls I (Txn t) calls \<and>
   cancel (wrapper_calls I t calls) = cancel t \<and>
   Txn (wrapper_calls I (fst (newSlowLogTxn I s0)) calls) =
     underlying_calls I (client_Txn I (next_ctx s0)) calls \<and>
   cancel (fst (newSlowLogTxn I s0)) = next_ctx s0 \<and>
   snd (newSlowLogTxn I s0) = s0\<lparr>next_ctx := Suc (next_ctx s0)\<rparr> \<and>
   fst (Commit I (wrapper_calls I t calls) (s, kv)) =
     traced (fst (Txn_Commit I (underlying_calls I (Txn t) calls) kv)) \<and>
   snd (snd (Commit I (wrapper_calls I t calls) (s, kv))) =
     snd (snd (Txn_Commit I (underlying_calls I (Txn t) calls) kv)) \<and>
   exited (fst (snd (Commit I (wrapper_calls I t calls) (s, kv)))) = exited s \<and>
   next_ctx (fst (snd (Commit I (wrapper_calls I t calls) (s, kv)))) = next_ctx s \<and>
   status_calls (fst (snd (Commit I (wrapper_calls I t calls) (s, kv)))) = status_calls s \<and>
   timeline (fst (snd (Commit I (wrapper_calls I t calls) (s, kv)))) = timeline s \<and>
   cancelled (fst (snd (Commit I (wrapper_calls I t calls) (s, kv)))) =
     cancelled s @ [cancel t] \<and>
   logged (fst (snd (Commit I (wrapper_calls I t calls) (s, kv)))) =
     logged s @
       (if slowRequestTime < fst (snd (Txn_Commit I (underlying_calls I (Txn t) calls) kv))
        then [(LOG_WARNING,
               TxnSlow (fst (Txn_Commit I (underlying_calls I (Txn t) calls) kv))
                 (fst (snd (Txn_Commit I (underlying_calls I (Txn t) calls) kv))))]
        else []) \<and>
   txnCounter (fst (snd (Commit I (wrapper_calls I t calls) (s, kv)))) =
     (txnCounter s)
       ((if isl (fst (Txn_Commit I (underlying_calls I (Txn t) calls) kv))
         then ''failed'' else ''success'') :=
          txnCounter s
            (if isl (fst (Txn_Commit I (underlying_calls I (Txn t) calls) kv))
             then ''failed'' else ''success'') + 1) \<and>
   txnDuration (fst (snd (Commit I (wrapper_calls I t calls) (s, kv)))) =
     (txnDuration s)
       ((if isl (fst (Txn_Commit I (underlying_calls I (Txn t) calls) kv))
         then ''failed'' else ''success'') :=
          txnDuration s
            (if isl (fst (Txn_Commit I (underlying_calls I (Txn t) calls) kv))
             then ''failed'' else ''success'') @
          [fst (snd (Txn_Commit I (underlying_calls I (Txn t) calls) kv))])"
proof -
  let ?w = "wrapper_calls I t calls"
  have w: "Txn ?w = underlying_calls I (Txn t) calls"
    by (rule Txn_wrapper_calls)
  have cw: "cancel ?w = cancel t"
    by (rule cancel_wrapper_calls)
  have new: "Txn (fst (newSlowLogTxn I s0)) = client_Txn I (next_ctx s0)"
    by (simp add: newSlowLogTxn_def WithTimeout_def)
  have wnew: "Txn (wrapper_calls I (fst (newSlowLogTxn I s0)) calls) =
      underlying_calls I (client_Txn I (next_ctx s0)) calls"
    using Txn_wrapper_calls [of I "fst (newSlowLogTxn I s0)" calls] new by simp
  have cnew: "cancel (fst (newSlowLogTxn I s0)) = next_ctx s0"
    by (simp add: newSlowLogTxn_def WithTimeout_def)
  have snew: "snd (newSlowLogTxn I s0) = s0\<lparr>next_ctx := Suc (next_ctx s0)\<rparr>"
    by (simp add: newSlowLogTxn_def WithTimeout_def)
  have c: "Commit I ?w (s, kv) =
     (traced (fst (Txn_Commit I (underlying_calls I (Txn t) calls) kv)),
      fst (snd (Commit I ?w (s, kv))),
      snd (snd (Txn_Commit I (underlying_calls I (Txn t) calls) kv)))"
    using Commit_result [of I ?w s kv] by (simp only: w)
  have c1: "fst (Commit I ?w (s, kv)) =
     traced (fst (Txn_Commit I (underlying_calls I (Txn t) calls) kv))"
    by (subst c) simp
  have c2: "snd (snd (Commit I ?w (s, kv))) =
     snd (snd (Txn_Commit I (underlying_calls I (Txn t) calls) kv))"
    by (subst c) simp
  note st = Commit_state [of I ?w s kv, unfolded w cw]
  have f1: "exited (fst (snd (Commit I ?w (s, kv)))) = exited s"
    by (subst st) simp
  have f2: "next_ctx (fst (snd (Commit I ?w (s, kv)))) = next_ctx s"
    by (subst st) simp
  have f3: "status_calls (fst (snd (Commit I ?w (s, kv)))) = status_calls s"
    by (subst st) simp
  have f4: "timeline (fst (snd (Commit I ?w (s, kv)))) = timeline s"
    by (subst st) simp
  have f5: "cancelled (fst (snd (Commit I ?w (s, kv)))) = cancelled s @ [cancel t]"
    by (subst st) simp
  have f6: "logged (fst (snd (Commit I ?w (s, kv)))) =
     logged s @
       (if slowRequestTime < fst (snd (Txn_Commit I (underlying_calls I (Txn t) calls) kv))
        then [(LOG_WARNING,
               TxnSlow (fst (Txn_Commit I (underlying_calls I (Txn t) calls) kv))
                 (fst (snd (Txn_Commit I (underlying_calls I (Txn t) calls) kv))))]
        else [])"
    by (subst st) simp
  have f7: "txnCounter (fst (snd (Commit I ?w (s, kv)))) =
     (txnCounter s)
       ((if isl (fst (Txn_Commit I (underlying_calls I (Txn t) calls) kv))
         then ''failed'' else ''success'') :=
          txnCounter s
            (if isl (fst (Txn_Commit I (underlying_calls I (Txn t) calls) kv))
             then ''failed'' else ''success'') + 1)"
    by (subst st) simp
  have f8: "txnDuration (fst (snd (Commit I ?w (s, kv)))) =
     (txnDuration s)
       ((if isl (fst (Txn_Commit I (underlying_calls I (Txn t) calls) kv))
         then ''failed'' else ''success'') :=
          txnDuration s
            (if isl (fst (Txn_Commit I (underlying_calls I (Txn t) calls) kv))
             then ''failed'' else ''success'') @
          [fst (snd (Txn_Commit I (underlying_calls I (Txn t) calls) kv))])"
    by (subst st) simp
  show ?thesis
    by (intro conjI) (fact w cw wnew cnew snew c1 c2 f1 f2 f3 f4 f5 f6 f7 f8)+
qed

subsection \<open>The log bridge\<close>

text \<open>
  C9. A notice entry and an info entry both reach the sink at its info level, a debug
  entry and a trace entry both at its debug level, an error entry at its error level and
  a warning entry at its warning level; a critical entry reaches it at the fatal level,
  which exits the process. No other level exits it.
\<close>

theorem Format_levels:
  "map fst (logged (Format pkg NOTICE depth entries s)) = map fst (logged s) @ [LOG_INFO] \<and>
   map fst (logged (Format pkg INFO depth entries s)) = map fst (logged s) @ [LOG_INFO] \<and>
   map fst (logged (Format pkg DEBUG depth entries s)) = map fst (logged s) @ [LOG_DEBUG] \<and>
   map fst (logged (Format pkg TRACE depth entries s)) = map fst (logged s) @ [LOG_DEBUG] \<and>
   map fst (logged (Format pkg ERROR depth entries s)) = map fst (logged s) @ [LOG_ERROR] \<and>
   map fst (logged (Format pkg WARNING depth entries s)) = map fst (logged s) @ [LOG_WARNING] \<and>
   map fst (logged (Format pkg CRITICAL depth entries s)) = map fst (logged s) @ [LOG_FATAL] \<and>
   exited (Format pkg CRITICAL depth entries s) \<and>
   exited (Format pkg NOTICE depth entries s) = exited s \<and>
   exited (Format pkg INFO depth entries s) = exited s \<and>
   exited (Format pkg DEBUG depth entries s) = exited s \<and>
   exited (Format pkg TRACE depth entries s) = exited s \<and>
   exited (Format pkg ERROR depth entries s) = exited s \<and>
   exited (Format pkg WARNING depth entries s) = exited s"
  by (simp add: Format_def Let_def log_Fatalf_def log_Errorf_def log_Warningf_def
      log_Infof_def log_Debugf_def)

subsection \<open>The readiness prober\<close>

lemma fst_endpointStatus:
  "fst (endpointStatus c endpoint s) =
     traced (fst (Status c (status_calls s) requestTimeout endpoint))"
  by (simp add: endpointStatus_def WithTimeout_def Let_def split: prod.splits)

lemma status_calls_endpointStatus:
  "status_calls (snd (endpointStatus c endpoint s)) = Suc (status_calls s)"
  by (simp add: endpointStatus_def WithTimeout_def cancel_ctx_def log_Warnf_def Let_def
      split: prod.splits)

lemma timeline_endpointStatus:
  "timeline (snd (endpointStatus c endpoint s)) = timeline s @ [StatusQuery endpoint]"
  by (simp add: endpointStatus_def WithTimeout_def cancel_ctx_def log_Warnf_def Let_def
      split: prod.splits)

text \<open>One round of the loop whose status query fails: query, sleep, next round.\<close>

lemma waitEtcdStart_loop_fail:
  assumes "i < maxCheckEtcdRunningCount"
    and "fst (Status c (status_calls s) requestTimeout endpoint) = Inl e"
  shows "\<exists>s'. waitEtcdStart_loop c endpoint i err s =
           waitEtcdStart_loop c endpoint (Suc i) (Some (Traced e)) s' \<and>
         status_calls s' = Suc (status_calls s) \<and>
         timeline s' = timeline s @ [StatusQuery endpoint, Sleep checkEtcdRunningDelay]"
proof -
  obtain r s1 where es: "endpointStatus c endpoint s = (r, s1)"
    by (cases "endpointStatus c endpoint s")
  have r: "r = Inl (Traced e)"
    using fst_endpointStatus [of c endpoint s] es assms(2) by (simp add: traced_def)
  have sc: "status_calls s1 = Suc (status_calls s)"
    using status_calls_endpointStatus [of c endpoint s] es by simp
  have tl: "timeline s1 = timeline s @ [StatusQuery endpoint]"
    using timeline_endpointStatus [of c endpoint s] es by simp
  have "waitEtcdStart_loop c endpoint i err s =
      waitEtcdStart_loop c endpoint (Suc i) (Some (Traced e))
        (time_Sleep checkEtcdRunningDelay s1)"
    using assms(1) es r by (subst waitEtcdStart_loop.simps) simp
  moreover have "status_calls (time_Sleep checkEtcdRunningDelay s1) = Suc (status_calls s)"
    using sc by (simp add: time_Sleep_def)
  moreover have "timeline (time_Sleep checkEtcdRunningDelay s1) =
      timeline s @ [StatusQuery endpoint, Sleep checkEtcdRunningDelay]"
    using tl by (simp add: time_Sleep_def)
  ultimately show ?thesis by blast
qed

text \<open>\<open>n\<close> rounds whose status queries all fail.\<close>

lemma waitEtcdStart_loop_fails:
  assumes "\<forall>j<n. isl (fst (Status c (status_calls s + j) requestTimeout endpoint))"
    and "i + n \<le> maxCheckEtcdRunningCount"
  shows "\<exists>s' err'. waitEtcdStart_loop c endpoint i err s =
           waitEtcdStart_loop c endpoint (i + n) err' s' \<and>
         status_calls s' = status_calls s + n \<and>
         timeline s' = timeline s @
           concat (replicate n [StatusQuery endpoint, Sleep checkEtcdRunningDelay]) \<and>
         (n = 0 \<longrightarrow> err' = err) \<and>
         (0 < n \<longrightarrow> (\<exists>e. fst (Status c (status_calls s + (n - 1)) requestTimeout endpoint) = Inl e
            \<and> err' = Some (Traced e)))"
  using assms
proof (induction n arbitrary: i err s)
  case 0
  show ?case by (intro exI [of _ s] exI [of _ err]) simp
next
  case (Suc n)
  from Suc.prems(1) have "isl (fst (Status c (status_calls s) requestTimeout endpoint))"
    by (metis add.right_neutral zero_less_Suc)
  then obtain e where e: "fst (Status c (status_calls s) requestTimeout endpoint) = Inl e"
    by (cases "fst (Status c (status_calls s) requestTimeout endpoint)") simp_all
  from Suc.prems(2) have i: "i < maxCheckEtcdRunningCount" by simp
  from waitEtcdStart_loop_fail [OF i e, of err] obtain s1 where
    step: "waitEtcdStart_loop c endpoint i err s =
        waitEtcdStart_loop c endpoint (Suc i) (Some (Traced e)) s1"
    and sc1: "status_calls s1 = Suc (status_calls s)"
    and tl1: "timeline s1 = timeline s @ [StatusQuery endpoint, Sleep checkEtcdRunningDelay]"
    by blast
  have fails1: "\<forall>j<n. isl (fst (Status c (status_calls s1 + j) requestTimeout endpoint))"
  proof (intro allI impI)
    fix j assume "j < n"
    then have "Suc j < Suc n" by simp
    with Suc.prems(1) have "isl (fst (Status c (status_calls s + Suc j) requestTimeout endpoint))"
      by blast
    then show "isl (fst (Status c (status_calls s1 + j) requestTimeout endpoint))"
      by (simp add: sc1)
  qed
  from Suc.prems(2) have bound1: "Suc i + n \<le> maxCheckEtcdRunningCount" by simp
  from Suc.IH [OF fails1 bound1, of "Some (Traced e)"] obtain s' err' where
    rest: "waitEtcdStart_loop c endpoint (Suc i) (Some (Traced e)) s1 =
        waitEtcdStart_loop c endpoint (Suc i + n) err' s'"
    and sc: "status_calls s' = status_calls s1 + n"
    and tl: "timeline s' = timeline s1 @
        concat (replicate n [StatusQuery endpoint, Sleep checkEtcdRunningDelay])"
    and e0: "n = 0 \<longrightarrow> err' = Some (Traced e)"
    and en: "0 < n \<longrightarrow> (\<exists>e'. fst (Status c (status_calls s1 + (n - 1)) requestTimeout endpoint)
        = Inl e' \<and> err' = Some (Traced e'))"
    by blast
  have last: "\<exists>e'. fst (Status c (status_calls s + (Suc n - 1)) requestTimeout endpoint) = Inl e'
      \<and> err' = Some (Traced e')"
  proof (cases n)
    case 0
    with e e0 show ?thesis by simp
  next
    case (Suc m)
    with en sc1 show ?thesis by simp
  qed
  have "waitEtcdStart_loop c endpoint i err s =
      waitEtcdStart_loop c endpoint (i + Suc n) err' s'"
    using step rest by simp
  moreover have "status_calls s' = status_calls s + Suc n"
    using sc sc1 by simp
  moreover have "timeline s' = timeline s @
      concat (replicate (Suc n) [StatusQuery endpoint, Sleep checkEtcdRunningDelay])"
    using tl tl1 by simp
  ultimately show ?case using last by blast
qed

text \<open>
  C7. If the first \<open>m\<close> status queries fail and the next one succeeds, with \<open>m < 100\<close>,
  the prober returns nil after exactly \<open>m + 1\<close> queries, with one sleep of the fixed delay
  after each failed query and so between any two queries. If the first 100 queries all
  fail, it makes exactly those 100 queries and returns the error of the last one, traced.
\<close>

theorem waitEtcdStart_attempts:
  "(m < 100 \<longrightarrow>
    (\<forall>j<m. isl (fst (Status c (status_calls s + j) requestTimeout endpoint))) \<longrightarrow>
    \<not> isl (fst (Status c (status_calls s + m) requestTimeout endpoint)) \<longrightarrow>
      fst (waitEtcdStart c endpoint s) = None \<and>
      status_calls (snd (waitEtcdStart c endpoint s)) = status_calls s + (m + 1) \<and>
      timeline (snd (waitEtcdStart c endpoint s)) = timeline s @
        concat (replicate m [StatusQuery endpoint, Sleep checkEtcdRunningDelay]) @
        [StatusQuery endpoint]) \<and>
   ((\<forall>j<100. isl (fst (Status c (status_calls s + j) requestTimeout endpoint))) \<longrightarrow>
      (\<exists>e. fst (Status c (status_calls s + 99) requestTimeout endpoint) = Inl e \<and>
         fst (waitEtcdStart c endpoint s) = Some (Traced (Traced e)) \<and>
         Cause (Traced (Traced e)) = Cause e) \<and>
      status_calls (snd (waitEtcdStart c endpoint s)) = status_calls s + 100 \<and>
      timeline (snd (waitEtcdStart c endpoint s)) = timeline s @
        concat (replicate 100 [StatusQuery endpoint, Sleep checkEtcdRunningDelay]))"
proof (intro conjI impI)
  assume m: "m < 100"
    and fails: "\<forall>j<m. isl (fst (Status c (status_calls s + j) requestTimeout endpoint))"
    and ok: "\<not> isl (fst (Status c (status_calls s + m) requestTimeout endpoint))"
  from m have bound: "0 + m \<le> maxCheckEtcdRunningCount"
    by (simp add: maxCheckEtcdRunningCount_def)
  from waitEtcdStart_loop_fails [OF fails bound, of None] obtain s' err' where
    run: "waitEtcdStart_loop c endpoint 0 None s = waitEtcdStart_loop c endpoint m err' s'"
    and sc: "status_calls s' = status_calls s + m"
    and tl: "timeline s' = timeline s @
        concat (replicate m [StatusQuery endpoint, Sleep checkEtcdRunningDelay])"
    by auto
  obtain r s2 where es: "endpointStatus c endpoint s' = (r, s2)"
    by (cases "endpointStatus c endpoint s'")
  have "\<not> isl r"
    using fst_endpointStatus [of c endpoint s'] es ok sc by (simp add: isl_traced)
  then obtain resp where r: "r = Inr resp" by (cases r) simp_all
  have last: "waitEtcdStart_loop c endpoint m err' s' = (None, s2)"
    using m es r by (subst waitEtcdStart_loop.simps) (simp add: maxCheckEtcdRunningCount_def)
  have sc2: "status_calls s2 = Suc (status_calls s')"
    using status_calls_endpointStatus [of c endpoint s'] es by simp
  have tl2: "timeline s2 = timeline s' @ [StatusQuery endpoint]"
    using timeline_endpointStatus [of c endpoint s'] es by simp
  have w: "waitEtcdStart c endpoint s = (None, s2)"
    using run last by (simp add: waitEtcdStart_def)
  show "fst (waitEtcdStart c endpoint s) = None"
    using w by simp
  show "status_calls (snd (waitEtcdStart c endpoint s)) = status_calls s + (m + 1)"
    using w sc sc2 by simp
  show "timeline (snd (waitEtcdStart c endpoint s)) = timeline s @
        concat (replicate m [StatusQuery endpoint, Sleep checkEtcdRunningDelay]) @
        [StatusQuery endpoint]"
    using w tl tl2 by simp
next
  assume fails: "\<forall>j<100. isl (fst (Status c (status_calls s + j) requestTimeout endpoint))"
  have bound: "0 + 100 \<le> maxCheckEtcdRunningCount"
    by (simp add: maxCheckEtcdRunningCount_def)
  from waitEtcdStart_loop_fails [OF fails bound, of None] obtain s' err' e where
    run: "waitEtcdStart_loop c endpoint 0 None s = waitEtcdStart_loop c endpoint 100 err' s'"
    and sc: "status_calls s' = status_calls s + 100"
    and tl: "timeline s' = timeline s @
        concat (replicate 100 [StatusQuery endpoint, Sleep checkEtcdRunningDelay])"
    and e: "fst (Status c (status_calls s + 99) requestTimeout endpoint) = Inl e"
    and err': "err' = Some (Traced e)"
    by auto
  have last: "waitEtcdStart_loop c endpoint 100 err' s' = (Trace err', s')"
    by (subst waitEtcdStart_loop.simps) (simp add: maxCheckEtcdRunningCount_def)
  have w: "waitEtcdStart c endpoint s = (Some (Traced (Traced e)), s')"
    using run last err' by (simp add: waitEtcdStart_def Trace_def)
  show "\<exists>e. fst (Status c (status_calls s + 99) requestTimeout endpoint) = Inl e \<and>
         fst (waitEtcdStart c endpoint s) = Some (Traced (Traced e)) \<and>
         Cause (Traced (Traced e)) = Cause e"
    using w e by simp
  show "status_calls (snd (waitEtcdStart c endpoint s)) = status_calls s + 100"
    using w sc by simp
  show "timeline (snd (waitEtcdStart c endpoint s)) = timeline s @
        concat (replicate 100 [StatusQuery endpoint, Sleep checkEtcdRunningDelay])"
    using w tl by simp
qed

theorem waitEtcdStart_attempts_witness:
  "fst (waitEtcdStart (client_ready_after 2) ''127.0.0.1:2379'' state0) = None \<and>
   status_calls (snd (waitEtcdStart (client_ready_after 2) ''127.0.0.1:2379'' state0)) = 3 \<and>
   timeline (snd (waitEtcdStart (client_ready_after 2) ''127.0.0.1:2379'' state0)) =
     [StatusQuery ''127.0.0.1:2379'', Sleep 100000000,
      StatusQuery ''127.0.0.1:2379'', Sleep 100000000, StatusQuery ''127.0.0.1:2379''] \<and>
   fst (waitEtcdStart client_never_ready ''127.0.0.1:2379'' state0) =
     Some (Traced (Traced (External ''unavailable''))) \<and>
   status_calls (snd (waitEtcdStart client_never_ready ''127.0.0.1:2379'' state0)) = 100"
proof -
  have two: "\<And>P. (\<forall>j<2::nat. P j) = (P 0 \<and> P 1)"
    by (auto simp: less_Suc_eq numeral_2_eq_2)
  have a: "fst (waitEtcdStart (client_ready_after 2) ''127.0.0.1:2379'' state0) = None \<and>
      status_calls (snd (waitEtcdStart (client_ready_after 2) ''127.0.0.1:2379'' state0)) =
        status_calls state0 + (2 + 1) \<and>
      timeline (snd (waitEtcdStart (client_ready_after 2) ''127.0.0.1:2379'' state0)) =
        timeline state0 @
        concat (replicate 2 [StatusQuery ''127.0.0.1:2379'', Sleep checkEtcdRunningDelay]) @
        [StatusQuery ''127.0.0.1:2379'']"
    using waitEtcdStart_attempts [of 2 "client_ready_after 2" state0 "''127.0.0.1:2379''"]
    by (simp add: client_ready_after_def state0_def two)
  have b: "fst (waitEtcdStart client_never_ready ''127.0.0.1:2379'' state0) =
        Some (Traced (Traced (External ''unavailable''))) \<and>
      status_calls (snd (waitEtcdStart client_never_ready ''127.0.0.1:2379'' state0)) =
        status_calls state0 + 100"
    using waitEtcdStart_attempts [of 2 client_never_ready state0 "''127.0.0.1:2379''"]
    by (simp add: client_never_ready_def state0_def)
  show ?thesis
    using a b
    by (simp add: state0_def checkEtcdRunningDelay_def Millisecond_def numeral_2_eq_2)
qed

subsection \<open>Candidates of the RPC client\<close>

lemma rpcConnect_urls_skip:
  assumes "candidate_fails N (length (dialed k)) url"
  shows "\<exists>k1 cs. rpcConnect_urls N (url # urls) k = rpcConnect_urls N urls k1 \<and>
           dialed k1 = dialed k @ [dial_target url] \<and>
           opened k1 = opened k @ cs \<and> closed k1 = closed k @ cs"
proof (cases "Dial N (length (dialed k)) (dial_network url) (Host url)")
  case (Some e)
  let ?k1 = "k\<lparr>dialed := dialed k @ [dial_target url]\<rparr>"
  have "rpcConnect_urls N (url # urls) k = rpcConnect_urls N urls ?k1"
    using Some by (simp add: net_Dial_def dial_target_def Let_def)
  moreover have "dialed ?k1 = dialed k @ [dial_target url]" by simp
  moreover have "opened ?k1 = opened k @ [] \<and> closed ?k1 = closed k @ []" by simp
  ultimately show ?thesis by blast
next
  case None
  let ?c = "candidate_conn (length (dialed k)) url"
  let ?k1 = "k\<lparr>dialed := dialed k @ [dial_target url], opened := opened k @ [?c],
    closed := closed k @ [?c]\<rparr>"
  from assms None obtain e where w: "req_Write N ?c = Some e"
    by (auto simp: candidate_fails_def)
  have "rpcConnect_urls N (url # urls) k = rpcConnect_urls N urls ?k1"
    using None w
    by (simp add: net_Dial_def dial_target_def candidate_conn_def conn_Close_def Let_def)
  moreover have "dialed ?k1 = dialed k @ [dial_target url]" by simp
  moreover have "opened ?k1 = opened k @ [?c] \<and> closed ?k1 = closed k @ [?c]" by simp
  ultimately show ?thesis by blast
qed

lemma rpcConnect_urls_hit:
  assumes "\<not> candidate_fails N (length (dialed k)) url"
  shows "rpcConnect_urls N (url # urls) k =
           (Some (candidate_conn (length (dialed k)) url),
            k\<lparr>dialed := dialed k @ [dial_target url],
              opened := opened k @ [candidate_conn (length (dialed k)) url]\<rparr>)"
  using assms
  by (auto simp: candidate_fails_def net_Dial_def dial_target_def candidate_conn_def Let_def)

lemma rpcConnect_urls_prefix:
  assumes "\<forall>j<n. candidate_fails N (length (dialed k) + j) (urls ! j)"
    and "n \<le> length urls"
  shows "\<exists>k1 cs. rpcConnect_urls N urls k = rpcConnect_urls N (drop n urls) k1 \<and>
           dialed k1 = dialed k @ map dial_target (take n urls) \<and>
           opened k1 = opened k @ cs \<and> closed k1 = closed k @ cs"
  using assms
proof (induction n arbitrary: urls k)
  case 0
  show ?case by (intro exI [of _ k] exI [of _ "[]"]) simp
next
  case (Suc n)
  from Suc.prems(2) obtain url rest where urls: "urls = url # rest"
    by (cases urls) simp_all
  from Suc.prems(1) have "candidate_fails N (length (dialed k) + 0) (urls ! 0)"
    by blast
  then have "candidate_fails N (length (dialed k)) url"
    by (simp add: urls)
  from rpcConnect_urls_skip [OF this, of rest] obtain k1 cs1 where
    step: "rpcConnect_urls N (url # rest) k = rpcConnect_urls N rest k1"
    and d1: "dialed k1 = dialed k @ [dial_target url]"
    and o1: "opened k1 = opened k @ cs1" and c1: "closed k1 = closed k @ cs1"
    by blast
  have fails: "\<forall>j<n. candidate_fails N (length (dialed k1) + j) (rest ! j)"
  proof (intro allI impI)
    fix j assume "j < n"
    then have "Suc j < Suc n" by simp
    with Suc.prems(1) have "candidate_fails N (length (dialed k) + Suc j) (urls ! Suc j)"
      by blast
    then show "candidate_fails N (length (dialed k1) + j) (rest ! j)"
      by (simp add: urls d1)
  qed
  from Suc.prems(2) have len: "n \<le> length rest" by (simp add: urls)
  from Suc.IH [OF fails len] obtain k2 cs2 where
    run: "rpcConnect_urls N rest k1 = rpcConnect_urls N (drop n rest) k2"
    and d2: "dialed k2 = dialed k1 @ map dial_target (take n rest)"
    and o2: "opened k2 = opened k1 @ cs2" and c2: "closed k2 = closed k1 @ cs2"
    by blast
  have "rpcConnect_urls N urls k = rpcConnect_urls N (drop (Suc n) urls) k2"
    using step run by (simp add: urls)
  moreover have "dialed k2 = dialed k @ map dial_target (take (Suc n) urls)"
    using d1 d2 by (simp add: urls)
  moreover have "opened k2 = opened k @ (cs1 @ cs2) \<and> closed k2 = closed k @ (cs1 @ cs2)"
    using o1 o2 c1 c2 by simp
  ultimately show ?case by blast
qed

lemma rpcConnect_urls_all_fail:
  assumes "\<forall>j<length urls. candidate_fails N (length (dialed k) + j) (urls ! j)"
  shows "\<exists>k1 cs. rpcConnect_urls N urls k = (None, k1) \<and>
           dialed k1 = dialed k @ map dial_target urls \<and>
           opened k1 = opened k @ cs \<and> closed k1 = closed k @ cs"
  using rpcConnect_urls_prefix [OF assms order_refl] by simp

lemma rpcConnect_urls_first_ok:
  assumes "i < length urls"
    and "\<forall>j<i. candidate_fails N (length (dialed k) + j) (urls ! j)"
    and "\<not> candidate_fails N (length (dialed k) + i) (urls ! i)"
  shows "\<exists>k1 cs. rpcConnect_urls N urls k =
             (Some (candidate_conn (length (dialed k) + i) (urls ! i)), k1) \<and>
           dialed k1 = dialed k @ map dial_target (take (Suc i) urls) \<and>
           opened k1 = opened k @ cs @ [candidate_conn (length (dialed k) + i) (urls ! i)] \<and>
           closed k1 = closed k @ cs"
proof -
  from assms(1) have le: "i \<le> length urls" by simp
  from rpcConnect_urls_prefix [OF assms(2) le] obtain k1 cs where
    run: "rpcConnect_urls N urls k = rpcConnect_urls N (drop i urls) k1"
    and d1: "dialed k1 = dialed k @ map dial_target (take i urls)"
    and o1: "opened k1 = opened k @ cs" and c1: "closed k1 = closed k @ cs"
    by blast
  have dr: "drop i urls = urls ! i # drop (Suc i) urls"
    using assms(1) by (simp add: Cons_nth_drop_Suc)
  have len: "length (dialed k1) = length (dialed k) + i"
    using d1 assms(1) by simp
  let ?c = "candidate_conn (length (dialed k) + i) (urls ! i)"
  let ?k2 = "k1\<lparr>dialed := dialed k1 @ [dial_target (urls ! i)], opened := opened k1 @ [?c]\<rparr>"
  have "\<not> candidate_fails N (length (dialed k1)) (urls ! i)"
    using assms(3) len by simp
  from rpcConnect_urls_hit [OF this, of "drop (Suc i) urls"]
  have hit: "rpcConnect_urls N urls k = (Some ?c, ?k2)"
    using run dr len by simp
  moreover have "dialed ?k2 = dialed k @ map dial_target (take (Suc i) urls)"
    using d1 assms(1) by (simp add: take_Suc_conv_app_nth)
  moreover have "opened ?k2 = opened k @ cs @ [?c] \<and> closed ?k2 = closed k @ cs"
    using o1 c1 by simp
  ultimately show ?thesis by blast
qed

lemma rpcCall_sockets: "snd (rpcCall N conn reqID request k) = k"
  by (simp add: rpcCall_def split: option.splits sum.splits)

text \<open>
  C2, as the code has it. With the candidates \<open>urls\<close> of the address: a candidate whose
  dial or preflight write fails is passed over for the next one, after closing the
  connection the dial opened, and every candidate is dialed at most once, in order. If
  all candidates fail in that way, the call fails with the error
  \<open>connect to addr failed\<close>, and every connection it opened is closed. Otherwise the first
  candidate that does not fail is the connection of the call and no later candidate is
  dialed; when sending the request frame on it fails, the call returns that error.
\<close>

theorem RPCRequest_candidates:
  assumes "NewRequest N = None" and "ParseUrls N addr = Inr urls"
  shows
    "((\<forall>j<length urls. candidate_fails N (length (dialed k) + j) (urls ! j)) \<longrightarrow>
        fst (RPCRequest N addr reqID request k) = Inl (Traced (ConnectFailed addr)) \<and>
        dialed (snd (RPCRequest N addr reqID request k)) = dialed k @ map dial_target urls \<and>
        (\<exists>cs. opened (snd (RPCRequest N addr reqID request k)) = opened k @ cs \<and>
              closed (snd (RPCRequest N addr reqID request k)) = closed k @ cs)) \<and>
     (i < length urls \<longrightarrow>
      (\<forall>j<i. candidate_fails N (length (dialed k) + j) (urls ! j)) \<longrightarrow>
      \<not> candidate_fails N (length (dialed k) + i) (urls ! i) \<longrightarrow>
        fst (rpcConnect N addr k) = Inr (candidate_conn (length (dialed k) + i) (urls ! i)) \<and>
        (\<exists>cs. opened (snd (rpcConnect N addr k)) =
                opened k @ cs @ [candidate_conn (length (dialed k) + i) (urls ! i)] \<and>
              closed (snd (rpcConnect N addr k)) = closed k @ cs) \<and>
        dialed (snd (RPCRequest N addr reqID request k)) =
          dialed k @ map dial_target (take (Suc i) urls) \<and>
        (\<forall>e. WriteMessage N (candidate_conn (length (dialed k) + i) (urls ! i)) reqID
                \<lparr>MsgType = MessageType_PdReq, PdReq = Some request, PdResp = None\<rparr> = Some e \<longrightarrow>
             fst (RPCRequest N addr reqID request k) = Inl (Traced e)))"
proof (intro conjI impI)
  assume "\<forall>j<length urls. candidate_fails N (length (dialed k) + j) (urls ! j)"
  from rpcConnect_urls_all_fail [OF this] obtain k1 cs where
    run: "rpcConnect_urls N urls k = (None, k1)"
    and d1: "dialed k1 = dialed k @ map dial_target urls"
    and o1: "opened k1 = opened k @ cs" and c1: "closed k1 = closed k @ cs"
    by blast
  have r: "RPCRequest N addr reqID request k = (Inl (Traced (ConnectFailed addr)), k1)"
    using assms run by (simp add: RPCRequest_def rpcConnect_def)
  show "fst (RPCRequest N addr reqID request k) = Inl (Traced (ConnectFailed addr))"
    using r by simp
  show "dialed (snd (RPCRequest N addr reqID request k)) = dialed k @ map dial_target urls"
    using r d1 by simp
  show "\<exists>cs. opened (snd (RPCRequest N addr reqID request k)) = opened k @ cs \<and>
              closed (snd (RPCRequest N addr reqID request k)) = closed k @ cs"
    using r o1 c1 by simp
next
  let ?c = "candidate_conn (length (dialed k) + i) (urls ! i)"
  assume "i < length urls"
    and "\<forall>j<i. candidate_fails N (length (dialed k) + j) (urls ! j)"
    and "\<not> candidate_fails N (length (dialed k) + i) (urls ! i)"
  from rpcConnect_urls_first_ok [OF this] obtain k1 cs where
    run: "rpcConnect_urls N urls k = (Some ?c, k1)"
    and d1: "dialed k1 = dialed k @ map dial_target (take (Suc i) urls)"
    and o1: "opened k1 = opened k @ cs @ [?c]" and c1: "closed k1 = closed k @ cs"
    by blast
  have rc: "rpcConnect N addr k = (Inr ?c, k1)"
    using assms run by (simp add: rpcConnect_def)
  have r: "RPCRequest N addr reqID request k = rpcCall N ?c reqID request k1"
    using rc by (simp add: RPCRequest_def)
  show "fst (rpcConnect N addr k) = Inr ?c"
    using rc by simp
  show "\<exists>cs. opened (snd (rpcConnect N addr k)) = opened k @ cs @ [?c] \<and>
              closed (snd (rpcConnect N addr k)) = closed k @ cs"
    using rc o1 c1 by simp
  show "dialed (snd (RPCRequest N addr reqID request k)) =
          dialed k @ map dial_target (take (Suc i) urls)"
    using r d1 by (simp add: rpcCall_sockets)
  show "\<forall>e. WriteMessage N ?c reqID
                \<lparr>MsgType = MessageType_PdReq, PdReq = Some request, PdResp = None\<rparr> = Some e \<longrightarrow>
             fst (RPCRequest N addr reqID request k) = Inl (Traced e)"
    using r by (simp add: rpcCall_def)
qed

lemma all_less_2: "(\<forall>j<2::nat. P j) = (P 0 \<and> P 1)"
  by (auto simp: less_Suc_eq numeral_2_eq_2)

theorem RPCRequest_candidates_witness:
  "fst (RPCRequest net_down ''tcp://a:1,unix://b.sock'' 7 (Request ''ping'') sockets0) =
     Inl (Traced (ConnectFailed ''tcp://a:1,unix://b.sock'')) \<and>
   dialed (snd (RPCRequest net_down ''tcp://a:1,unix://b.sock'' 7 (Request ''ping'') sockets0)) =
     [(''tcp'', ''a:1''), (''unix'', ''b.sock'')] \<and>
   fst (rpcConnect net_first_down ''tcp://a:1,unix://b.sock'' sockets0) =
     Inr (Conn 1 ''unix'' ''b.sock'') \<and>
   dialed (snd (RPCRequest net_first_down ''tcp://a:1,unix://b.sock'' 7 (Request ''ping'')
     sockets0)) = [(''tcp'', ''a:1''), (''unix'', ''b.sock'')] \<and>
   fst (rpcConnect net_send_fails ''tcp://a:1,unix://b.sock'' sockets0) =
     Inr (Conn 0 ''tcp'' ''a:1'') \<and>
   fst (RPCRequest net_send_fails ''tcp://a:1,unix://b.sock'' 7 (Request ''ping'') sockets0) =
     Inl (Traced (External ''broken pipe''))"
proof -
  have a: "NewRequest net_down = None"
    "ParseUrls net_down ''tcp://a:1,unix://b.sock'' = Inr [url_a, url_b]"
    by (simp_all add: net_down_def)
  have b: "NewRequest net_first_down = None"
    "ParseUrls net_first_down ''tcp://a:1,unix://b.sock'' = Inr [url_a, url_b]"
    by (simp_all add: net_first_down_def)
  have c: "NewRequest net_send_fails = None"
    "ParseUrls net_send_fails ''tcp://a:1,unix://b.sock'' = Inr [url_a, url_b]"
    by (simp_all add: net_send_fails_def)
  show ?thesis
    using RPCRequest_candidates [OF a, where k = sockets0 and reqID = 7
        and request = "Request ''ping''" and i = 0]
      RPCRequest_candidates [OF b, where k = sockets0 and reqID = 7
        and request = "Request ''ping''" and i = 1]
      RPCRequest_candidates [OF c, where k = sockets0 and reqID = 7
        and request = "Request ''ping''" and i = 0]
    by (simp add: all_less_2 candidate_fails_def candidate_conn_def dial_target_def
        dial_network_def net_down_def net_first_down_def net_send_fails_def url_a_def
        url_b_def sockets0_def)
qed

text \<open>
  C2 as stated fails: \<open>a:1\<close> connects and takes the preflight write, sending the request
  frame to it fails, and \<open>b.sock\<close> would work. The call returns the send error and
  \<open>b.sock\<close> is never dialed.
\<close>

theorem RPCRequest_send_failure_no_fallback:
  "fst (RPCRequest net_send_fails ''tcp://a:1,unix://b.sock'' 7 (Request ''ping'') sockets0) =
     Inl (Traced (External ''broken pipe'')) \<and>
   dialed (snd (RPCRequest net_send_fails ''tcp://a:1,unix://b.sock'' 7 (Request ''ping'')
     sockets0)) = [(''tcp'', ''a:1'')] \<and>
   Dial net_send_fails 1 ''unix'' ''b.sock'' = None \<and>
   req_Write net_send_fails (Conn 1 ''unix'' ''b.sock'') = None \<and>
   WriteMessage net_send_fails (Conn 1 ''unix'' ''b.sock'') 7
     \<lparr>MsgType = MessageType_PdReq, PdReq = Some (Request ''ping''), PdResp = None\<rparr> = None"
  by (simp add: RPCRequest_def rpcConnect_def net_Dial_def dial_network_def rpcCall_def
      net_send_fails_def url_a_def url_b_def sockets0_def)

text \<open>
  C3 on the code: \<open>RPCRequest\<close> returns with the connection of the call still open, both
  when the call succeeds and when the response carries another correlation id. Nothing
  after \<open>rpcConnect\<close> calls \<open>Close\<close>.
\<close>

theorem RPCRequest_leaves_connection_open:
  "fst (RPCRequest (net_answering 7) ''tcp://a:1,unix://b.sock'' 7 (Request ''ping'') sockets0) =
     Inr (Some (Response ''pong'')) \<and>
   opened (snd (RPCRequest (net_answering 7) ''tcp://a:1,unix://b.sock'' 7 (Request ''ping'')
     sockets0)) = [Conn 0 ''tcp'' ''a:1''] \<and>
   closed (snd (RPCRequest (net_answering 7) ''tcp://a:1,unix://b.sock'' 7 (Request ''ping'')
     sockets0)) = [] \<and>
   fst (RPCRequest (net_answering 8) ''tcp://a:1,unix://b.sock'' 7 (Request ''ping'') sockets0) =
     Inl (IdMismatch 7 8) \<and>
   opened (snd (RPCRequest (net_answering 8) ''tcp://a:1,unix://b.sock'' 7 (Request ''ping'')
     sockets0)) = [Conn 0 ''tcp'' ''a:1''] \<and>
   closed (snd (RPCRequest (net_answering 8) ''tcp://a:1,unix://b.sock'' 7 (Request ''ping'')
     sockets0)) = []"
  by (simp add: RPCRequest_def rpcConnect_def net_Dial_def dial_network_def rpcCall_def
      net_answering_def pong_def url_a_def url_b_def sockets0_def)

end
